theory Spec2Isabelle
  imports Complex_Main
begin

section \<open>Capex simulation: the numeric core of \<open>main_app\<close>\<close>

text \<open>
  The source is one Streamlit script, \<^verbatim>\<open>Capex Simulation.py\<close>. Its numeric core is
  the population generation (lines 86-95), \<^verbatim>\<open>run_vectorized_simulation\<close> (98-109),
  the two risk sweeps (119-146) and the derivations of \<^verbatim>\<open>main_app\<close> (150-182, 213-256).

  Conventions of the embedding.
  \<^item> The NumPy generator is a global, hidden state. Here it is an explicit value \<open>g\<close>
    of an arbitrary type, passed to every sampling call and returned updated. The three
    sampling routines the script calls are the fields of a record \<open>R\<close>, a parameter of
    every definition: nothing is assumed about them except where a theorem names a
    contract (\<open>binomial_ok\<close>, \<open>generators_ok\<close>).
  \<^item> An exception is a value \<open>Inl e\<close>; the generator state is returned next to it, so
    that sampling done before the exception stays visible.
  \<^item> A NumPy integer array is an \<open>int list\<close>, a Python \<open>dict\<close> an association list in
    insertion order. Integers are unbounded: the 64-bit range of NumPy's arrays is not
    modelled.
  \<^item> A float is a \<open>real\<close>; where NumPy yields \<open>nan\<close> (mean of an empty array) the
    value is \<open>None\<close>. Rounding is not modelled.
  \<^item> Each definition is the body of the function it is named after: a call that
    misses the cache of \<^verbatim>\<open>st.cache_data\<close>. The cache is modelled once, for the engine
    (\<open>cached_simulation\<close>), where a property depends on it. The widgets, the charts
    and the Excel export are not modelled.
\<close>

subsection \<open>Errors and the random source\<close>

datatype error = ValueError | KeyError

record 'g np_random =
  rbinomial :: "'g \<Rightarrow> int list \<Rightarrow> real \<Rightarrow> nat \<Rightarrow> int list list \<times> 'g"
  rpoisson :: "'g \<Rightarrow> int \<Rightarrow> nat \<Rightarrow> int list \<times> 'g"
  rrandint :: "'g \<Rightarrow> int \<Rightarrow> int \<Rightarrow> nat \<Rightarrow> int list \<times> 'g"

text \<open>
  \<open>rbinomial R g ns p k\<close> stands for \<^verbatim>\<open>np.random.binomial(n=ns, p=p, size=(k, len(ns)))\<close>
  on valid arguments: a matrix of \<open>k\<close> rows, and the generator state after the draw.
  \<open>rpoisson R g lam k\<close> stands for \<^verbatim>\<open>np.random.poisson(lam, k)\<close> and
  \<open>rrandint R g low high k\<close> for \<^verbatim>\<open>np.random.randint(low=low, high=high, size=k)\<close>.
  The wrappers below add the argument checks of NumPy, which raise \<^verbatim>\<open>ValueError\<close>
  before anything is drawn.
\<close>

definition np_binomial ::
  "'g np_random \<Rightarrow> 'g \<Rightarrow> int list \<Rightarrow> real \<Rightarrow> int \<Rightarrow> (error + int list list) \<times> 'g" where
  "np_binomial R g ns p n_sim =
     (if p < 0 \<or> 1 < p then (Inl ValueError, g)
      else if \<exists>a\<in>set ns. a < 0 then (Inl ValueError, g)
      else if n_sim < 0 then (Inl ValueError, g)
      else (case rbinomial R g ns p (nat n_sim) of (M, g') \<Rightarrow> (Inr M, g')))"

definition np_poisson ::
  "'g np_random \<Rightarrow> 'g \<Rightarrow> int \<Rightarrow> nat \<Rightarrow> (error + int list) \<times> 'g" where
  "np_poisson R g lam k =
     (if lam < 0 then (Inl ValueError, g)
      else (case rpoisson R g lam k of (xs, g') \<Rightarrow> (Inr xs, g')))"

definition np_randint ::
  "'g np_random \<Rightarrow> 'g \<Rightarrow> int \<Rightarrow> int \<Rightarrow> nat \<Rightarrow> (error + int list) \<times> 'g" where
  "np_randint R g low high k =
     (if high \<le> low then (Inl ValueError, g)
      else (case rrandint R g low high k of (xs, g') \<Rightarrow> (Inr xs, g')))"

text \<open>
  What the theorems ask of the binomial routine: the shape of the matrix, every entry
  between 0 and the number of trials of its column, and the two certain cases
  (\<open>p = 1\<close>: every trial succeeds; \<open>p = 0\<close>: none does).
\<close>

definition binomial_entry :: "real \<Rightarrow> int \<Rightarrow> int \<Rightarrow> bool" where
  "binomial_entry p x a = (0 \<le> x \<and> x \<le> a \<and> (p = 1 \<longrightarrow> x = a) \<and> (p = 0 \<longrightarrow> x = 0))"

definition binomial_matrix :: "int list \<Rightarrow> real \<Rightarrow> nat \<Rightarrow> int list list \<Rightarrow> bool" where
  "binomial_matrix ns p k M =
     (length M = k \<and> (\<forall>row\<in>set M. list_all2 (binomial_entry p) row ns))"

definition binomial_ok :: "'g np_random \<Rightarrow> bool" where
  "binomial_ok R =
     (\<forall>g ns p k. 0 \<le> p \<and> p \<le> 1 \<and> (\<forall>a\<in>set ns. 0 \<le> a)
        \<longrightarrow> binomial_matrix ns p k (fst (rbinomial R g ns p k)))"

definition generators_ok :: "'g np_random \<Rightarrow> bool" where
  "generators_ok R =
     ((\<forall>g lam k. 0 \<le> lam \<longrightarrow>
         length (fst (rpoisson R g lam k)) = k \<and> (\<forall>a\<in>set (fst (rpoisson R g lam k)). 0 \<le> a))
      \<and> (\<forall>g low high k. low < high \<longrightarrow>
         length (fst (rrandint R g low high k)) = k
         \<and> (\<forall>a\<in>set (fst (rrandint R g low high k)). low \<le> a \<and> a < high)))"

subsection \<open>The simulation engine\<close>

text \<open>\<open>dict_set d k v\<close> is the assignment \<^verbatim>\<open>d[k] = v\<close>: a key already present keeps
  its place and takes the new value, a new key goes to the end.\<close>

fun dict_set :: "('k \<times> 'v) list \<Rightarrow> 'k \<Rightarrow> 'v \<Rightarrow> ('k \<times> 'v) list" where
  "dict_set [] k v = [(k, v)]"
| "dict_set ((k', v') # d) k v =
     (if k' = k then (k', v) # d else (k', v') # dict_set d k v)"

definition payouts_of :: "int list list \<Rightarrow> int \<Rightarrow> int list" where
  "payouts_of successful_accounts_matrix payout =
     (let total_successful_accounts_per_sim = map sum_list successful_accounts_matrix
      in map (\<lambda>t. t * payout) total_successful_accounts_per_sim)"

fun simulation_loop ::
  "'g np_random \<Rightarrow> int list \<Rightarrow> int \<Rightarrow> int \<Rightarrow> real list \<Rightarrow> (real \<times> int list) list \<Rightarrow> 'g
     \<Rightarrow> (error + (real \<times> int list) list) \<times> 'g" where
  "simulation_loop R trader_accounts n_sim payout [] results g = (Inr results, g)"
| "simulation_loop R trader_accounts n_sim payout (rate # rates) results g =
     (let success_rate = 1 - rate in
      case np_binomial R g trader_accounts success_rate n_sim of
        (Inl e, g1) \<Rightarrow> (Inl e, g1)
      | (Inr successful_accounts_matrix, g1) \<Rightarrow>
          simulation_loop R trader_accounts n_sim payout rates
            (dict_set results rate (payouts_of successful_accounts_matrix payout)) g1)"

definition run_vectorized_simulation ::
  "'g np_random \<Rightarrow> 'g \<Rightarrow> int list \<Rightarrow> int \<Rightarrow> real list \<Rightarrow> int
     \<Rightarrow> (error + (real \<times> int list) list) \<times> 'g" where
  "run_vectorized_simulation R g trader_accounts n_sim failure_rates payout =
     simulation_loop R trader_accounts n_sim payout failure_rates [] g"




subsection \<open>Statistics and labels\<close>

text \<open>\<^verbatim>\<open>np.mean\<close> and \<^verbatim>\<open>np.std\<close> (population standard deviation); \<open>None\<close> is
  the \<open>nan\<close> NumPy returns for an empty array.\<close>

definition np_mean :: "int list \<Rightarrow> real option" where
  "np_mean xs =
     (if xs = [] then None else Some (real_of_int (sum_list xs) / real (length xs)))"

definition np_std :: "int list \<Rightarrow> real option" where
  "np_std xs =
     (case np_mean xs of
        None \<Rightarrow> None
      | Some m \<Rightarrow>
          Some (sqrt (sum_list (map (\<lambda>x. (real_of_int x - m)\<^sup>2) xs) / real (length xs))))"

text \<open>Float arithmetic with \<open>nan\<close>: an operation on \<open>nan\<close> is \<open>nan\<close>, a comparison
  with \<open>nan\<close> is false.\<close>

definition float_op :: "(real \<Rightarrow> real \<Rightarrow> real) \<Rightarrow> real option \<Rightarrow> real option \<Rightarrow> real option" where
  "float_op f a b = (case (a, b) of (Some x, Some y) \<Rightarrow> Some (f x y) | _ \<Rightarrow> None)"

definition positive :: "real option \<Rightarrow> bool" where
  "positive a = (case a of Some x \<Rightarrow> 0 < x | None \<Rightarrow> False)"

fun digits :: "nat \<Rightarrow> string" where
  "digits n =
     (if n < 10 then [''0123456789'' ! n]
      else digits (n div 10) @ [''0123456789'' ! (n mod 10)])"

definition str_int :: "int \<Rightarrow> string" where
  "str_int i = (if i < 0 then CHR ''-'' # digits (nat (- i)) else digits (nat i))"

text \<open>The label \<^verbatim>\<open>f"{int(rate * 100)}%"\<close>; \<^verbatim>\<open>int\<close> truncates towards zero.\<close>

definition percent_label :: "real \<Rightarrow> string" where
  "percent_label rate =
     (let x = rate * 100 in str_int (if 0 \<le> x then \<lfloor>x\<rfloor> else \<lceil>x\<rceil>) @ ''%'')"

subsection \<open>The sensitivity sweeps\<close>

record risk_row =
  axis_value :: int
  failure_rate_label :: string
  standard_deviation :: "real option"

definition risk_rows :: "int \<Rightarrow> (real \<times> int list) list \<Rightarrow> risk_row list" where
  "risk_rows axis sim_res =
     map (\<lambda>(rate, payouts).
            \<lparr>axis_value = axis, failure_rate_label = percent_label rate,
             standard_deviation = np_std payouts\<rparr>) sim_res"

fun risk_loop ::
  "'g np_random \<Rightarrow> nat \<Rightarrow> int \<Rightarrow> real list \<Rightarrow> int \<Rightarrow> int list \<Rightarrow> risk_row list \<Rightarrow> 'g
     \<Rightarrow> (error + risk_row list) \<times> 'g" where
  "risk_loop R num n_sim rates payout [] std_devs_data g = (Inr std_devs_data, g)"
| "risk_loop R num n_sim rates payout (avg_acc # rest) std_devs_data g =
     (case np_poisson R g avg_acc num of
        (Inl e, g1) \<Rightarrow> (Inl e, g1)
      | (Inr trader_accounts_for_run, g1) \<Rightarrow>
          (case run_vectorized_simulation R g1 trader_accounts_for_run n_sim rates payout of
             (Inl e, g2) \<Rightarrow> (Inl e, g2)
           | (Inr sim_res, g2) \<Rightarrow>
               risk_loop R num n_sim rates payout rest
                 (std_devs_data @ risk_rows avg_acc sim_res) g2))"

definition run_risk_analysis ::
  "'g np_random \<Rightarrow> 'g \<Rightarrow> nat \<Rightarrow> int \<Rightarrow> real list \<Rightarrow> int \<Rightarrow> (error + risk_row list) \<times> 'g" where
  "run_risk_analysis R g num n_sim failure_rates payout =
     risk_loop R num n_sim failure_rates payout [1..20] [] g"

fun randomized_risk_loop ::
  "'g np_random \<Rightarrow> nat \<Rightarrow> int \<Rightarrow> real list \<Rightarrow> int \<Rightarrow> int list \<Rightarrow> risk_row list \<Rightarrow> 'g
     \<Rightarrow> (error + risk_row list) \<times> 'g" where
  "randomized_risk_loop R num n_sim rates payout [] risk_data g = (Inr risk_data, g)"
| "randomized_risk_loop R num n_sim rates payout (max_range_val # rest) risk_data g =
     (case np_randint R g 1 (max_range_val + 1) num of
        (Inl e, g1) \<Rightarrow> (Inl e, g1)
      | (Inr trader_accounts_for_run, g1) \<Rightarrow>
          (case run_vectorized_simulation R g1 trader_accounts_for_run n_sim rates payout of
             (Inl e, g2) \<Rightarrow> (Inl e, g2)
           | (Inr sim_res, g2) \<Rightarrow>
               randomized_risk_loop R num n_sim rates payout rest
                 (risk_data @ risk_rows max_range_val sim_res) g2))"

definition run_randomized_risk_analysis ::
  "'g np_random \<Rightarrow> 'g \<Rightarrow> nat \<Rightarrow> int \<Rightarrow> real list \<Rightarrow> int \<Rightarrow> (error + risk_row list) \<times> 'g" where
  "run_randomized_risk_analysis R g num n_sim failure_rates payout =
     randomized_risk_loop R num n_sim failure_rates payout [2..20] [] g"

subsection \<open>The derivations of \<open>main_app\<close>\<close>

datatype mode = Simulate_Average | Randomized

record params =
  distribution_mode :: mode
  num_traders :: nat
  avg_accounts_per_trader :: int
  randomized_account_range :: "int \<times> int"
  n_simulations :: int
  cost_per_account :: int
  payout_per_successful_account :: int
  additional_revenue :: int

record scenario_row =
  failure_rate_scenario :: string
  simulated_payout :: int
  associated_profit :: int

record profit_row =
  failure_rate :: real
  estimated_profit :: "real option"

record scenario_metrics =
  scenario_rate :: real
  mean_payout :: "real option"
  std_payout :: "real option"
  estimated_net_profit :: "real option"
  profit_minus_1_std :: "real option"
  profit_plus_1_std :: "real option"

datatype breakeven = Lowest_profitable real "real option" | No_profitable_rate

text \<open>Lines 86-94: the population of the run.\<close>

definition generate_trader_accounts ::
  "'g np_random \<Rightarrow> 'g \<Rightarrow> params \<Rightarrow> (error + int list) \<times> 'g" where
  "generate_trader_accounts R g P =
     (if distribution_mode P = Simulate_Average
      then np_poisson R g (avg_accounts_per_trader P) (num_traders P)
      else np_randint R g (fst (randomized_account_range P))
             (snd (randomized_account_range P) + 1) (num_traders P))"

text \<open>Line 150.\<close>

definition total_revenue_of :: "int list \<Rightarrow> params \<Rightarrow> int" where
  "total_revenue_of trader_accounts P =
     (let total_accounts = sum_list trader_accounts
      in (total_accounts * cost_per_account P) + additional_revenue P)"

text \<open>Lines 162-169: one row per scenario and replicate.\<close>

definition all_scenarios_data :: "int \<Rightarrow> (real \<times> int list) list \<Rightarrow> scenario_row list" where
  "all_scenarios_data total_revenue simulation_results =
     concat (map (\<lambda>(rate, payouts).
                    map (\<lambda>payout_value.
                           \<lparr>failure_rate_scenario = percent_label rate,
                            simulated_payout = payout_value,
                            associated_profit = total_revenue - payout_value\<rparr>) payouts)
                 simulation_results)"

text \<open>Line 173: \<^verbatim>\<open>np.arange(0.01, 1.00, 0.01)\<close>, the 99 rates 0.01, 0.02, ..., 0.99.\<close>

definition failure_rate_range :: "real list" where
  "failure_rate_range = map (\<lambda>i. 1 / 100 + real i * (1 / 100)) [0..<99]"

definition scenario_failure_rates :: "real list" where
  "scenario_failure_rates = [90 / 100, 85 / 100, 80 / 100, 75 / 100, 50 / 100]"

text \<open>Lines 175-176: the breakeven curve, sorted by failure rate.\<close>

definition profit_data :: "int \<Rightarrow> (real \<times> int list) list \<Rightarrow> profit_row list" where
  "profit_data total_revenue breakeven_results =
     map (\<lambda>(rate, payouts).
            \<lparr>failure_rate = rate,
             estimated_profit = float_op (-) (Some (real_of_int total_revenue)) (np_mean payouts)\<rparr>)
         breakeven_results"

definition df_profit_of :: "int \<Rightarrow> (real \<times> int list) list \<Rightarrow> profit_row list" where
  "df_profit_of total_revenue breakeven_results =
     sort_key failure_rate (profit_data total_revenue breakeven_results)"

text \<open>Lines 239-256: the lowest profitable rate, or the warning.\<close>

definition find_lowest_profitable :: "profit_row list \<Rightarrow> breakeven" where
  "find_lowest_profitable df =
     (let df_profitable = filter (\<lambda>row. positive (estimated_profit row)) df in
      case df_profitable of
        [] \<Rightarrow> No_profitable_rate
      | row # rows \<Rightarrow>
          (let lowest_profitable_rate = fold min (map failure_rate rows) (failure_rate row);
               matching = filter (\<lambda>r. failure_rate r = lowest_profitable_rate) df_profitable
           in Lowest_profitable lowest_profitable_rate (estimated_profit (hd matching))))"

text \<open>Lines 215-231: the metrics of one scenario; \<^verbatim>\<open>simulation_results[rate]\<close> raises
  \<^verbatim>\<open>KeyError\<close> on a missing key.\<close>

definition scenario_metrics_of ::
  "int \<Rightarrow> (real \<times> int list) list \<Rightarrow> real \<Rightarrow> error + scenario_metrics" where
  "scenario_metrics_of total_revenue simulation_results rate =
     (case map_of simulation_results rate of
        None \<Rightarrow> Inl KeyError
      | Some payouts \<Rightarrow>
          (let mean = np_mean payouts;
               std = np_std payouts;
               revenue = Some (real_of_int total_revenue)
           in Inr \<lparr>scenario_rate = rate,
                   mean_payout = mean,
                   std_payout = std,
                   estimated_net_profit = float_op (-) revenue mean,
                   profit_minus_1_std = float_op (-) revenue (float_op (+) mean std),
                   profit_plus_1_std = float_op (-) revenue (float_op (-) mean std)\<rparr>))"

fun tab1_loop ::
  "int \<Rightarrow> (real \<times> int list) list \<Rightarrow> real list \<Rightarrow> error + scenario_metrics list" where
  "tab1_loop total_revenue simulation_results [] = Inr []"
| "tab1_loop total_revenue simulation_results (rate # rates) =
     (case scenario_metrics_of total_revenue simulation_results rate of
        Inl e \<Rightarrow> Inl e
      | Inr m \<Rightarrow>
          (case tab1_loop total_revenue simulation_results rates of
             Inl e \<Rightarrow> Inl e
           | Inr ms \<Rightarrow> Inr (m # ms)))"

record report =
  trader_accounts_of :: "int list"
  total_revenue :: int
  simulation_results :: "(real \<times> int list) list"
  breakeven_results_of :: "(real \<times> int list) list"
  df_all_scenarios :: "scenario_row list"
  df_profit :: "profit_row list"
  df_risk_analysis :: "risk_row list"
  tab1 :: "scenario_metrics list"
  tab2 :: breakeven

definition main_app :: "'g np_random \<Rightarrow> 'g \<Rightarrow> params \<Rightarrow> (error + report) \<times> 'g" where
  "main_app R g P =
     (case generate_trader_accounts R g P of
        (Inl e, g1) \<Rightarrow> (Inl e, g1)
      | (Inr trader_accounts, g1) \<Rightarrow>
     (let revenue = total_revenue_of trader_accounts P in
      case run_vectorized_simulation R g1 trader_accounts (n_simulations P)
             scenario_failure_rates (payout_per_successful_account P) of
        (Inl e, g2) \<Rightarrow> (Inl e, g2)
      | (Inr results, g2) \<Rightarrow>
     (case run_vectorized_simulation R g2 trader_accounts (n_simulations P)
             failure_rate_range (payout_per_successful_account P) of
        (Inl e, g3) \<Rightarrow> (Inl e, g3)
      | (Inr breakeven_results, g3) \<Rightarrow>
     (case (if distribution_mode P = Simulate_Average
            then run_risk_analysis R g3 (num_traders P) (n_simulations P)
                   scenario_failure_rates (payout_per_successful_account P)
            else run_randomized_risk_analysis R g3 (num_traders P) (n_simulations P)
                   scenario_failure_rates (payout_per_successful_account P)) of
        (Inl e, g4) \<Rightarrow> (Inl e, g4)
      | (Inr risk, g4) \<Rightarrow>
     (case tab1_loop revenue results scenario_failure_rates of
        Inl e \<Rightarrow> (Inl e, g4)
      | Inr metrics \<Rightarrow>
          (Inr \<lparr>trader_accounts_of = trader_accounts,
                total_revenue = revenue,
                simulation_results = results,
                breakeven_results_of = breakeven_results,
                df_all_scenarios = all_scenarios_data revenue results,
                df_profit = df_profit_of revenue breakeven_results,
                df_risk_analysis = risk,
                tab1 = metrics,
                tab2 = find_lowest_profitable (df_profit_of revenue breakeven_results)\<rparr>,
           g4))))))"

subsection \<open>The calls to the random routines, recorded\<close>

text \<open>
  \<open>logged R\<close> is the random source \<open>R\<close> with a record of every call made to it: its
  generator state is the state of \<open>R\<close> and the list of calls so far. Running the program
  on \<open>logged R\<close> shows which populations are generated and which population each
  binomial draw is made for.
\<close>

datatype event =
    Binomial "int list" real nat
  | Poisson int nat "int list"
  | Randint int int nat "int list"

definition logged :: "'g np_random \<Rightarrow> ('g \<times> event list) np_random" where
  "logged R =
     \<lparr>rbinomial = (\<lambda>(g, tr) ns p k.
        case rbinomial R g ns p k of (M, g') \<Rightarrow> (M, (g', tr @ [Binomial ns p k]))),
      rpoisson = (\<lambda>(g, tr) lam k.
        case rpoisson R g lam k of (xs, g') \<Rightarrow> (xs, (g', tr @ [Poisson lam k xs]))),
      rrandint = (\<lambda>(g, tr) low high k.
        case rrandint R g low high k of (xs, g') \<Rightarrow> (xs, (g', tr @ [Randint low high k xs])))\<rparr>"

subsection \<open>A small random source for concrete runs\<close>

text \<open>
  \<open>lcg\<close> is a deterministic stand-in for NumPy's generator, used only to run the
  definitions on concrete inputs. Its state is a number stepped by a linear congruence;
  a draw scales the state into the range of the draw. It meets \<open>binomial_ok\<close> and
  \<open>generators_ok\<close>; its draws follow no particular distribution.
\<close>

definition lcg_next :: "nat \<Rightarrow> nat" where
  "lcg_next g = (5 * g + 3) mod 16"

definition lcg_below :: "nat \<Rightarrow> int \<Rightarrow> int" where
  "lcg_below g m = (int (g mod 16) * m) div 16"

fun lcg_row :: "real \<Rightarrow> int list \<Rightarrow> nat \<Rightarrow> int list \<times> nat" where
  "lcg_row p [] g = ([], g)"
| "lcg_row p (a # as) g =
     (let x = (if p = 1 then a else if p = 0 then 0 else lcg_below g (a + 1))
      in case lcg_row p as (lcg_next g) of (xs, g') \<Rightarrow> (x # xs, g'))"

fun lcg_rows :: "real \<Rightarrow> int list \<Rightarrow> nat \<Rightarrow> nat \<Rightarrow> int list list \<times> nat" where
  "lcg_rows p ns 0 g = ([], g)"
| "lcg_rows p ns (Suc k) g =
     (case lcg_row p ns g of (row, g1) \<Rightarrow>
        (case lcg_rows p ns k g1 of (rows, g2) \<Rightarrow> (row # rows, g2)))"

fun lcg_ints :: "int \<Rightarrow> int \<Rightarrow> nat \<Rightarrow> nat \<Rightarrow> int list \<times> nat" where
  "lcg_ints low high 0 g = ([], g)"
| "lcg_ints low high (Suc k) g =
     (case lcg_ints low high k (lcg_next g) of
        (xs, g') \<Rightarrow> ((low + lcg_below g (high - low)) # xs, g'))"

definition lcg :: "nat np_random" where
  "lcg =
     \<lparr>rbinomial = (\<lambda>g ns p k. lcg_rows p ns k g),
      rpoisson = (\<lambda>g lam k. lcg_ints 0 (2 * lam + 1) k g),
      rrandint = (\<lambda>g low high k. lcg_ints low high k g)\<rparr>"

subsection \<open>Notions used in the statements\<close>

text \<open>
  \<open>engine_accepts\<close> collects the arguments on which no call of the binomial routine
  is rejected. \<open>insertion_order ks rs\<close> is the order of the keys of a \<open>dict\<close> that
  had the keys \<open>ks\<close> and was then assigned the keys \<open>rs\<close> one after the other.
\<close>

definition engine_accepts :: "int list \<Rightarrow> int \<Rightarrow> real list \<Rightarrow> bool" where
  "engine_accepts trader_accounts n_sim failure_rates =
     (failure_rates = [] \<or>
      (0 \<le> n_sim \<and> list_all (\<lambda>a. 0 \<le> a) trader_accounts
       \<and> list_all (\<lambda>r. 0 \<le> r \<and> r \<le> 1) failure_rates))"

fun insertion_order :: "'k list \<Rightarrow> 'k list \<Rightarrow> 'k list" where
  "insertion_order ks [] = ks"
| "insertion_order ks (r # rs) = insertion_order (if r \<in> set ks then ks else ks @ [r]) rs"


text \<open>
  The two sweep loops of the source differ only in the call that generates the
  population; \<open>sweep_loop\<close> is their common shape, with that call as the parameter
  \<open>gen\<close> (lemmas \<open>risk_loop_sweep\<close> and \<open>randomized_risk_loop_sweep\<close>).
\<close>

fun sweep_loop ::
  "('g \<Rightarrow> int \<Rightarrow> (error + int list) \<times> 'g) \<Rightarrow> 'g np_random \<Rightarrow> int \<Rightarrow> real list \<Rightarrow> int
     \<Rightarrow> int list \<Rightarrow> risk_row list \<Rightarrow> 'g \<Rightarrow> (error + risk_row list) \<times> 'g" where
  "sweep_loop gen R n_sim rates payout [] rows g = (Inr rows, g)"
| "sweep_loop gen R n_sim rates payout (v # rest) rows g =
     (case gen g v of
        (Inl e, g1) \<Rightarrow> (Inl e, g1)
      | (Inr population, g1) \<Rightarrow>
          (case run_vectorized_simulation R g1 population n_sim rates payout of
             (Inl e, g2) \<Rightarrow> (Inl e, g2)
           | (Inr sim_res, g2) \<Rightarrow>
               sweep_loop gen R n_sim rates payout rest (rows @ risk_rows v sim_res) g2))"

text \<open>
  The parameters on which no call of \<open>main_app\<close> to a random routine is rejected. The
  widgets of the script allow less: 100 to 5000 simulations, an average of 1 to 20, a
  range within 1 to 20.
\<close>

definition params_ok :: "params \<Rightarrow> bool" where
  "params_ok P =
     (0 \<le> n_simulations P
      \<and> (if distribution_mode P = Simulate_Average then 0 \<le> avg_accounts_per_trader P
         else fst (randomized_account_range P) \<le> snd (randomized_account_range P)
              \<and> 0 \<le> fst (randomized_account_range P)))"




text \<open>\<open>same_run x y\<close>: the run \<open>x\<close> on a logged source and the run \<open>y\<close> on the source
  itself return the same value and leave the same generator state.\<close>

definition same_run :: "'a \<times> ('g \<times> event list) \<Rightarrow> 'a \<times> 'g \<Rightarrow> bool" where
  "same_run x y = (fst x = fst y \<and> fst (snd x) = snd y)"

section \<open>Properties\<close>

subsection \<open>The engine's loop\<close>

lemma np_binomial_cases:
  "np_binomial R g ns p n =
     (if p < 0 \<or> 1 < p \<or> (\<exists>a\<in>set ns. a < 0) \<or> n < 0 then (Inl ValueError, g)
      else (Inr (fst (rbinomial R g ns p (nat n))), snd (rbinomial R g ns p (nat n))))"
  by (simp add: np_binomial_def split: prod.splits)

lemma map_fst_dict_set:
  "map fst (dict_set d k v) = (if k \<in> set (map fst d) then map fst d else map fst d @ [k])"
  by (induction d k v rule: dict_set.induct) auto

lemma map_of_dict_set: "map_of (dict_set d k v) = (map_of d)(k \<mapsto> v)"
  by (induction d) (auto simp: fun_eq_iff)

lemma set_dict_set: "set (dict_set d k v) \<subseteq> insert (k, v) (set d)"
  by (induction d k v rule: dict_set.induct) auto

lemma simulation_loop_step:
  "simulation_loop R pop n payout (rate # rates) results g =
     (if 1 - rate < 0 \<or> 1 < 1 - rate \<or> (\<exists>a\<in>set pop. a < 0) \<or> n < 0 then (Inl ValueError, g)
      else simulation_loop R pop n payout rates
             (dict_set results rate (payouts_of (fst (rbinomial R g pop (1 - rate) (nat n))) payout))
             (snd (rbinomial R g pop (1 - rate) (nat n))))"
  by (simp add: np_binomial_cases Let_def)


lemma simulation_loop_accepts:
  "engine_accepts pop n rates \<Longrightarrow>
   \<exists>res g'. simulation_loop R pop n payout rates results g = (Inr res, g')"
proof (induction rates arbitrary: results g)
  case Nil
  then show ?case by simp
next
  case (Cons rate rates)
  then have ok: "\<not> (1 - rate < 0 \<or> 1 < 1 - rate \<or> (\<exists>a\<in>set pop. a < 0) \<or> n < 0)"
    and rest: "engine_accepts pop n rates"
    by (auto simp: engine_accepts_def list_all_iff)
  show ?case
    using Cons.IH [OF rest] ok
    by (simp add: simulation_loop_step del: simulation_loop.simps)
qed

lemma simulation_loop_keys:
  "simulation_loop R pop n payout rates results g = (Inr res, g') \<Longrightarrow>
   map fst res = insertion_order (map fst results) rates"
proof (induction rates arbitrary: results g)
  case Nil
  then show ?case by simp
next
  case (Cons rate rates)
  then show ?case
    by (simp add: simulation_loop_step map_fst_dict_set del: simulation_loop.simps split: if_splits)
qed

lemma insertion_order_set: "set (insertion_order ks rs) = set ks \<union> set rs"
  by (induction ks rs rule: insertion_order.induct) auto

lemma insertion_order_distinct: "distinct ks \<Longrightarrow> distinct (insertion_order ks rs)"
  by (induction ks rs rule: insertion_order.induct) auto

lemma insertion_order_append:
  "distinct rs \<Longrightarrow> set ks \<inter> set rs = {} \<Longrightarrow> insertion_order ks rs = ks @ rs"
  by (induction ks rs rule: insertion_order.induct) auto

lemma simulation_loop_untouched:
  "simulation_loop R pop n payout rates results g = (Inr res, g') \<Longrightarrow> r \<notin> set rates \<Longrightarrow>
   map_of res r = map_of results r"
proof (induction rates arbitrary: results g)
  case Nil
  then show ?case by simp
next
  case (Cons rate rates)
  then show ?case
    by (simp add: simulation_loop_step map_of_dict_set del: simulation_loop.simps split: if_splits)
qed

lemma simulation_loop_append:
  "simulation_loop R pop n payout (xs @ ys) results g =
     (case simulation_loop R pop n payout xs results g of
        (Inl e, g1) \<Rightarrow> (Inl e, g1)
      | (Inr res1, g1) \<Rightarrow> simulation_loop R pop n payout ys res1 g1)"
proof (induction xs arbitrary: results g)
  case Nil
  then show ?case by simp
next
  case (Cons x xs)
  then show ?case
    by (simp add: simulation_loop_step del: simulation_loop.simps)
qed

lemma simulation_loop_last:
  assumes "simulation_loop R pop n payout (pre @ r # post) [] g = (Inr res, g')"
    and "r \<notin> set post"
  shows "map_of res r =
     Some (payouts_of (fst (rbinomial R (snd (simulation_loop R pop n payout pre [] g)) pop (1 - r) (nat n))) payout)"
proof -
  obtain res1 g1 where pre: "simulation_loop R pop n payout pre [] g = (Inr res1, g1)"
    using assms(1) by (auto simp: simulation_loop_append split: prod.splits sum.splits)
  let ?b = "payouts_of (fst (rbinomial R g1 pop (1 - r) (nat n))) payout"
  have post: "simulation_loop R pop n payout post (dict_set res1 r ?b) (snd (rbinomial R g1 pop (1 - r) (nat n))) = (Inr res, g')"
    using assms(1) pre
    by (simp add: simulation_loop_append simulation_loop_step del: simulation_loop.simps split: if_splits)
  have "map_of res r = map_of (dict_set res1 r ?b) r"
    by (rule simulation_loop_untouched [OF post assms(2)])
  then show ?thesis
    by (simp add: map_of_dict_set pre)
qed

lemma simulation_loop_batches:
  assumes "simulation_loop R pop n payout rates results g = (Inr res, g')"
    and "(r, batch) \<in> set res"
  shows "(r, batch) \<in> set results \<or>
     (r \<in> set rates \<and> (\<exists>g1. batch = payouts_of (fst (rbinomial R g1 pop (1 - r) (nat n))) payout))"
  using assms
proof (induction rates arbitrary: results g)
  case Nil
  then show ?case by simp
next
  case (Cons rate rates)
  let ?b = "payouts_of (fst (rbinomial R g pop (1 - rate) (nat n))) payout"
  from Cons.prems(1) have
    rest: "simulation_loop R pop n payout rates (dict_set results rate ?b)
             (snd (rbinomial R g pop (1 - rate) (nat n))) = (Inr res, g')"
    by (simp add: simulation_loop_step del: simulation_loop.simps split: if_splits)
  from Cons.IH [OF rest Cons.prems(2)] set_dict_set [of results rate ?b]
  show ?case by auto
qed

subsection \<open>The small random source meets the contracts\<close>

lemma lcg_below_range: "0 < m \<Longrightarrow> 0 \<le> lcg_below g m \<and> lcg_below g m < m"
proof -
  assume m: "0 < m"
  have "int (g mod 16) < 16" by simp
  then have "int (g mod 16) * m < m * 16" using m by simp
  then have "int (g mod 16) * m div 16 < m"
    by (simp add: div_less_iff_less_mult)
  moreover have "0 \<le> int (g mod 16) * m div 16"
    using m by (simp add: pos_imp_zdiv_nonneg_iff)
  ultimately show ?thesis by (simp add: lcg_below_def)
qed

lemma lcg_row_entries:
  "\<forall>a\<in>set ns. 0 \<le> a \<Longrightarrow> list_all2 (binomial_entry p) (fst (lcg_row p ns g)) ns"
proof (induction ns arbitrary: g)
  case Nil
  then show ?case by simp
next
  case (Cons a ns)
  then have "0 < a + 1" and a: "0 \<le> a" by simp_all
  from lcg_below_range [OF this(1), of g] a
  have head: "binomial_entry p (if p = 1 then a else if p = 0 then 0 else lcg_below g (a + 1)) a"
    by (simp add: binomial_entry_def)
  have tail: "list_all2 (binomial_entry p) (fst (lcg_row p ns (lcg_next g))) ns"
    using Cons by simp
  from head tail show ?case
    by (simp add: Let_def case_prod_beta)
qed

lemma lcg_rows_matrix:
  "\<forall>a\<in>set ns. 0 \<le> a \<Longrightarrow> binomial_matrix ns p k (fst (lcg_rows p ns k g))"
proof (induction k arbitrary: g)
  case 0
  then show ?case by (simp add: binomial_matrix_def)
next
  case (Suc k)
  from Suc.IH [OF Suc.prems, of "snd (lcg_row p ns g)"] lcg_row_entries [OF Suc.prems, of p g]
  show ?case
    by (simp add: binomial_matrix_def case_prod_beta)
qed

lemma lcg_binomial_ok: "binomial_ok lcg"
  by (simp add: binomial_ok_def lcg_def lcg_rows_matrix)

lemma lcg_ints_range:
  "low < high \<Longrightarrow> length (fst (lcg_ints low high k g)) = k
     \<and> (\<forall>a\<in>set (fst (lcg_ints low high k g)). low \<le> a \<and> a < high)"
proof (induction k arbitrary: g)
  case 0
  then show ?case by simp
next
  case (Suc k)
  then have "0 < high - low" by simp
  from lcg_below_range [OF this, of g] Suc.IH [OF Suc.prems, of "lcg_next g"]
  show ?case
    by (auto simp: case_prod_beta)
qed

lemma lcg_generators_ok: "generators_ok lcg"
proof -
  have "length (fst (lcg_ints 0 (2 * lam + 1) k g)) = k
      \<and> (\<forall>a\<in>set (fst (lcg_ints 0 (2 * lam + 1) k g)). 0 \<le> a)"
    if "0 \<le> lam" for lam k g
  proof -
    from that have "(0::int) < 2 * lam + 1" by simp
    from lcg_ints_range [OF this, of k g] show ?thesis by simp
  qed
  then show ?thesis
    using lcg_ints_range
    by (simp add: generators_ok_def lcg_def)
qed

subsection \<open>A failure rate of 0\<close>




subsection \<open>What the engine returns\<close>



lemma run_accepts:
  assumes "engine_accepts pop n rates"
  obtains res g' where "run_vectorized_simulation R g pop n rates payout = (Inr res, g')"
    and "map fst res = insertion_order [] rates"
proof -
  from simulation_loop_accepts [OF assms, of R payout "[]" g] obtain res g' where
    run: "simulation_loop R pop n payout rates [] g = (Inr res, g')" by blast
  from simulation_loop_keys [OF run] have "map fst res = insertion_order [] rates" by simp
  with run that show ?thesis by (simp add: run_vectorized_simulation_def)
qed




subsection \<open>When the engine fails\<close>




text \<open>A bad rate later in the list is met only after the batches of the rates before
  it have been drawn.\<close>

lemma sampling_before_rejection:
  "run_vectorized_simulation (logged lcg) (0, []) [2, 3] 1 [1 / 2, 2] 1000
     = (Inl ValueError, (2, [Binomial [2, 3] (1 / 2) 1]))"
  by (simp add: run_vectorized_simulation_def np_binomial_def lcg_def logged_def payouts_of_def
      lcg_next_def)

subsection \<open>Repeated rates\<close>

text \<open>
  C10. The result has exactly one batch for each distinct rate of the list, so fewer
  entries than rates when a rate is repeated, and no error. The batch kept for a rate is
  the one drawn at its last occurrence: the one drawn from the generator state reached
  after the rates before that occurrence.
\<close>

theorem duplicate_rates_last_wins:
  assumes "engine_accepts trader_accounts n_sim failure_rates"
  shows "\<exists>res g'.
     run_vectorized_simulation R g trader_accounts n_sim failure_rates payout = (Inr res, g')
     \<and> distinct (map fst res)
     \<and> set (map fst res) = set failure_rates
     \<and> length res = card (set failure_rates)
     \<and> (\<not> distinct failure_rates \<longrightarrow> length res < length failure_rates)
     \<and> (\<forall>pre r post. failure_rates = pre @ r # post \<and> r \<notin> set post \<longrightarrow>
           map_of res r =
             Some (payouts_of
                     (fst (rbinomial R
                            (snd (run_vectorized_simulation R g trader_accounts n_sim pre payout))
                            trader_accounts (1 - r) (nat n_sim)))
                     payout))"
proof -
  from assms obtain res g' where
    run: "run_vectorized_simulation R g trader_accounts n_sim failure_rates payout = (Inr res, g')"
    and keys: "map fst res = insertion_order [] failure_rates"
    by (rule run_accepts)
  from keys have d: "distinct (map fst res)"
    by (simp add: insertion_order_distinct)
  from keys have s: "set (map fst res) = set failure_rates"
    by (simp add: insertion_order_set)
  have "length res = length (map fst res)" by simp
  also have "\<dots> = card (set (map fst res))"
    using d by (simp only: distinct_card)
  finally have c: "length res = card (set failure_rates)"
    using s by simp
  have l: "length res < length failure_rates" if "\<not> distinct failure_rates"
    using that c card_length [of failure_rates] card_distinct [of failure_rates] by linarith
  have last: "map_of res r =
             Some (payouts_of
                     (fst (rbinomial R
                            (snd (run_vectorized_simulation R g trader_accounts n_sim pre payout))
                            trader_accounts (1 - r) (nat n_sim)))
                     payout)"
    if "failure_rates = pre @ r # post" and "r \<notin> set post" for pre r post
    using simulation_loop_last [of R trader_accounts n_sim payout pre r post g res g'] run that
    by (simp add: run_vectorized_simulation_def)
  from run d s c l last show ?thesis by blast
qed

theorem duplicate_rates_last_wins_witness:
  "\<exists>res g'.
     run_vectorized_simulation lcg 3 [4, 5] 2 [1 / 2, 1 / 4, 1 / 2] 10 = (Inr res, g')
     \<and> length res = 2
     \<and> map_of res (1 / 2) =
         Some (payouts_of
                 (fst (rbinomial lcg
                        (snd (run_vectorized_simulation lcg 3 [4, 5] 2 [1 / 2, 1 / 4] 10))
                        [4, 5] (1 - 1 / 2) 2))
                 10)"
proof -
  have a: "engine_accepts [4, 5] 2 [1 / 2, 1 / 4, 1 / 2]"
    by (simp add: engine_accepts_def)
  have s: "[1 / 2, 1 / 4, 1 / 2 :: real] = [1 / 2, 1 / 4] @ (1 / 2) # [] \<and> (1 / 2 :: real) \<notin> set []"
    by simp
  have "set [1 / 2, 1 / 4, 1 / 2 :: real] = {1 / 2, 1 / 4}"
    by auto
  then have c: "card (set [1 / 2, 1 / 4, 1 / 2 :: real]) = 2"
    by simp
  from duplicate_rates_last_wins [OF a, of lcg 3 10] obtain res g' where
    run: "run_vectorized_simulation lcg 3 [4, 5] 2 [1 / 2, 1 / 4, 1 / 2] 10 = (Inr res, g')"
    and len: "length res = card (set [1 / 2, 1 / 4, 1 / 2 :: real])"
    and last: "\<forall>pre r post. [1 / 2, 1 / 4, 1 / 2 :: real] = pre @ r # post \<and> r \<notin> set post \<longrightarrow>
           map_of res r =
             Some (payouts_of
                     (fst (rbinomial lcg
                            (snd (run_vectorized_simulation lcg 3 [4, 5] 2 pre 10))
                            [4, 5] (1 - r) (nat 2)))
                     10)"
    by blast
  from last [rule_format, OF s] have
    "map_of res (1 / 2) =
         Some (payouts_of
                 (fst (rbinomial lcg
                        (snd (run_vectorized_simulation lcg 3 [4, 5] 2 [1 / 2, 1 / 4] 10))
                        [4, 5] (1 - 1 / 2) (nat 2)))
                 10)" .
  with run len c show ?thesis by simp
qed

subsection \<open>Seeded runs\<close>



text \<open>Without seeding, a second run of the body continues from the state the first
  one left, and its batches differ.\<close>

lemma unseeded_runs_differ:
  "fst (run_vectorized_simulation lcg 3 [4, 5] 2 [1 / 2] 10)
     \<noteq> fst (run_vectorized_simulation lcg
               (snd (run_vectorized_simulation lcg 3 [4, 5] 2 [1 / 2] 10)) [4, 5] 2 [1 / 2] 10)"
  by (simp add: run_vectorized_simulation_def np_binomial_def lcg_def payouts_of_def
      lcg_next_def lcg_below_def numeral_2_eq_2)

subsection \<open>The sweeps and the calls they make\<close>

text \<open>Both sweep loops are the loop \<open>sweep_loop\<close>, with their own generator call.\<close>

lemma risk_loop_sweep:
  "risk_loop R num n rates payout axis rows g
     = sweep_loop (\<lambda>g v. np_poisson R g v num) R n rates payout axis rows g"
  by (induction axis arbitrary: rows g) (simp_all split: prod.splits sum.splits)

lemma randomized_risk_loop_sweep:
  "randomized_risk_loop R num n rates payout axis rows g
     = sweep_loop (\<lambda>g v. np_randint R g 1 (v + 1) num) R n rates payout axis rows g"
  by (induction axis arbitrary: rows g) (simp_all split: prod.splits sum.splits)

lemma logged_binomial:
  "rbinomial (logged R) (g, tr) ns p k
     = (fst (rbinomial R g ns p k), (snd (rbinomial R g ns p k), tr @ [Binomial ns p k]))"
  by (simp add: logged_def case_prod_beta)

lemma logged_poisson:
  "rpoisson (logged R) (g, tr) lam k
     = (fst (rpoisson R g lam k),
        (snd (rpoisson R g lam k), tr @ [Poisson lam k (fst (rpoisson R g lam k))]))"
  by (simp add: logged_def case_prod_beta)

lemma logged_randint:
  "rrandint (logged R) (g, tr) low high k
     = (fst (rrandint R g low high k),
        (snd (rrandint R g low high k), tr @ [Randint low high k (fst (rrandint R g low high k))]))"
  by (simp add: logged_def case_prod_beta)



lemma list_all_scenario_failure_rates: "list_all (\<lambda>r. 0 \<le> r \<and> r \<le> 1) scenario_failure_rates"
  by (simp add: scenario_failure_rates_def)

lemma list_all_failure_rate_range: "list_all (\<lambda>r. 0 \<le> r \<and> r \<le> 1) failure_rate_range"
  by (auto simp: failure_rate_range_def list_all_iff)

lemma distinct_scenario_failure_rates: "distinct scenario_failure_rates"
  by (simp add: scenario_failure_rates_def)

lemma sorted_failure_rate_range: "sorted failure_rate_range \<and> distinct failure_rate_range"
proof -
  have "strict_mono (\<lambda>i::nat. 1 / 100 + real i * (1 / 100))"
    by (simp add: strict_mono_def)
  then show ?thesis
    unfolding failure_rate_range_def
    by (simp add: sorted_map strict_mono_less_eq distinct_map strict_mono_imp_inj_on
        sorted_wrt_iff_nth_less)
qed

lemma sweep_loop_succeeds:
  assumes gen: "\<And>g v. v \<in> set axis \<Longrightarrow>
       \<exists>population g1. gen g v = (Inr population, g1) \<and> (\<forall>a\<in>set population. 0 \<le> a)"
    and n: "0 \<le> n"
    and rates: "list_all (\<lambda>r. 0 \<le> r \<and> r \<le> 1) rates"
  shows "\<exists>out g'. sweep_loop gen R n rates payout axis rows g = (Inr out, g')"
  using gen
proof (induction axis arbitrary: rows g)
  case Nil
  then show ?case by simp
next
  case (Cons v rest)
  from Cons.prems [of v g] obtain population g1 where
    g: "gen g v = (Inr population, g1)" and pos: "\<forall>a\<in>set population. 0 \<le> a"
    by auto
  from pos n rates have "engine_accepts population n rates"
    by (simp add: engine_accepts_def list_all_iff)
  then obtain sim_res g2 where
    r: "run_vectorized_simulation R g1 population n rates payout = (Inr sim_res, g2)"
    by (rule run_accepts)
  have "\<exists>out g'. sweep_loop gen R n rates payout rest (rows @ risk_rows v sim_res) g2 = (Inr out, g')"
    by (rule Cons.IH) (rule Cons.prems, simp)
  with g r show ?case by simp
qed


lemma np_poisson_ok:
  assumes "generators_ok R" and "0 \<le> lam"
  shows "\<exists>population g1. np_poisson R g lam k = (Inr population, g1)
     \<and> (\<forall>a\<in>set population. 0 \<le> a) \<and> length population = k"
  using assms by (simp add: np_poisson_def generators_ok_def case_prod_beta)

lemma np_randint_ok:
  assumes "generators_ok R" and "low < high"
  shows "\<exists>population g1. np_randint R g low high k = (Inr population, g1)
     \<and> (\<forall>a\<in>set population. low \<le> a \<and> a < high) \<and> length population = k"
  using assms by (simp add: np_randint_def generators_ok_def case_prod_beta)



lemma generate_ok:
  assumes "generators_ok R" and "params_ok P"
  shows "\<exists>population g1. generate_trader_accounts R g P = (Inr population, g1)
     \<and> (\<forall>a\<in>set population. 0 \<le> a) \<and> length population = num_traders P"
proof (cases "distribution_mode P = Simulate_Average")
  case True
  with assms(2) have "0 \<le> avg_accounts_per_trader P" by (simp add: params_ok_def)
  from np_poisson_ok [OF assms(1) this, of g "num_traders P"] True show ?thesis
    by (simp add: generate_trader_accounts_def)
next
  case False
  with assms(2) have lo: "0 \<le> fst (randomized_account_range P)"
    and "fst (randomized_account_range P) < snd (randomized_account_range P) + 1"
    by (simp_all add: params_ok_def)
  from np_randint_ok [OF assms(1) this(2), of g "num_traders P"] False lo show ?thesis
    by (fastforce simp: generate_trader_accounts_def)
qed


lemma risk_analysis_succeeds:
  assumes "generators_ok R" and "0 \<le> n" and "list_all (\<lambda>r. 0 \<le> r \<and> r \<le> 1) rates"
  shows "\<exists>out g'. run_risk_analysis R g num n rates payout = (Inr out, g')"
    and "\<exists>out g'. run_randomized_risk_analysis R g num n rates payout = (Inr out, g')"
proof -
  have "\<exists>population g1. np_poisson R g v num = (Inr population, g1) \<and> (\<forall>a\<in>set population. 0 \<le> a)"
    if "v \<in> set [1..20]" for g v
  proof -
    from that have "0 \<le> v" by auto
    from np_poisson_ok [OF assms(1) this, of g num] show ?thesis by blast
  qed
  from sweep_loop_succeeds [of "[1..20]" "\<lambda>g v. np_poisson R g v num", OF this assms(2,3)]
  show "\<exists>out g'. run_risk_analysis R g num n rates payout = (Inr out, g')"
    by (simp add: run_risk_analysis_def risk_loop_sweep)
next
  have "\<exists>population g1. np_randint R g 1 (v + 1) num = (Inr population, g1)
      \<and> (\<forall>a\<in>set population. 0 \<le> a)"
    if "v \<in> set [2..20]" for g v
  proof -
    from that have "1 < v + 1" by auto
    from np_randint_ok [OF assms(1) this, of g num] show ?thesis by fastforce
  qed
  from sweep_loop_succeeds [of "[2..20]" "\<lambda>g v. np_randint R g 1 (v + 1) num", OF this assms(2,3)]
  show "\<exists>out g'. run_randomized_risk_analysis R g num n rates payout = (Inr out, g')"
    by (simp add: run_randomized_risk_analysis_def randomized_risk_loop_sweep)
qed







subsection \<open>The run of \<open>main_app\<close>\<close>

lemma scenario_metrics_of_Inr:
  "scenario_metrics_of revenue results r = Inr m \<Longrightarrow>
   \<exists>payouts. map_of results r = Some payouts
     \<and> scenario_rate m = r
     \<and> mean_payout m = np_mean payouts
     \<and> std_payout m = np_std payouts
     \<and> estimated_net_profit m = float_op (-) (Some (real_of_int revenue)) (np_mean payouts)
     \<and> profit_minus_1_std m
         = float_op (-) (Some (real_of_int revenue)) (float_op (+) (np_mean payouts) (np_std payouts))
     \<and> profit_plus_1_std m
         = float_op (-) (Some (real_of_int revenue)) (float_op (-) (np_mean payouts) (np_std payouts))"
  by (auto simp: scenario_metrics_of_def Let_def split: option.splits)

lemma tab1_loop_total:
  "set rates \<subseteq> set (map fst results) \<Longrightarrow>
   \<exists>ms. tab1_loop revenue results rates = Inr ms \<and> map scenario_rate ms = rates
     \<and> (\<forall>m\<in>set ms. scenario_metrics_of revenue results (scenario_rate m) = Inr m)"
proof (induction rates)
  case Nil
  then show ?case by simp
next
  case (Cons r rates)
  then have "r \<in> fst ` set results" by simp
  then obtain payouts where "map_of results r = Some payouts"
    by (cases "map_of results r") (auto simp: map_of_eq_None_iff)
  then obtain m where m: "scenario_metrics_of revenue results r = Inr m" and "scenario_rate m = r"
    by (simp add: scenario_metrics_of_def Let_def)
  moreover from Cons obtain ms where "tab1_loop revenue results rates = Inr ms"
    "map scenario_rate ms = rates"
    "\<forall>m\<in>set ms. scenario_metrics_of revenue results (scenario_rate m) = Inr m"
    by auto
  ultimately show ?case by simp
qed

lemma main_app_runs:
  assumes "generators_ok R" and "params_ok P"
  obtains trader_accounts g1 results g2 breakeven_results g3 risk g4 metrics where
    "generate_trader_accounts R g P = (Inr trader_accounts, g1)"
    "\<forall>a\<in>set trader_accounts. 0 \<le> a"
    "run_vectorized_simulation R g1 trader_accounts (n_simulations P) scenario_failure_rates
       (payout_per_successful_account P) = (Inr results, g2)"
    "map fst results = scenario_failure_rates"
    "run_vectorized_simulation R g2 trader_accounts (n_simulations P) failure_rate_range
       (payout_per_successful_account P) = (Inr breakeven_results, g3)"
    "map fst breakeven_results = failure_rate_range"
    "tab1_loop (total_revenue_of trader_accounts P) results scenario_failure_rates = Inr metrics"
    "main_app R g P =
       (Inr \<lparr>trader_accounts_of = trader_accounts,
             total_revenue = total_revenue_of trader_accounts P,
             simulation_results = results,
             breakeven_results_of = breakeven_results,
             df_all_scenarios = all_scenarios_data (total_revenue_of trader_accounts P) results,
             df_profit = df_profit_of (total_revenue_of trader_accounts P) breakeven_results,
             df_risk_analysis = risk,
             tab1 = metrics,
             tab2 = find_lowest_profitable
                      (df_profit_of (total_revenue_of trader_accounts P) breakeven_results)\<rparr>,
        g4)"
proof -
  from generate_ok [OF assms, of g] obtain trader_accounts g1 where
    gen: "generate_trader_accounts R g P = (Inr trader_accounts, g1)"
    and pos: "\<forall>a\<in>set trader_accounts. 0 \<le> a"
    by blast
  from assms(2) have n: "0 \<le> n_simulations P" by (simp add: params_ok_def)
  from pos n list_all_scenario_failure_rates
  have "engine_accepts trader_accounts (n_simulations P) scenario_failure_rates"
    by (simp add: engine_accepts_def list_all_iff)
  then obtain results g2 where
    r1: "run_vectorized_simulation R g1 trader_accounts (n_simulations P) scenario_failure_rates
       (payout_per_successful_account P) = (Inr results, g2)"
    and "map fst results = insertion_order [] scenario_failure_rates"
    by (rule run_accepts)
  then have k1: "map fst results = scenario_failure_rates"
    by (simp add: insertion_order_append distinct_scenario_failure_rates)
  from pos n list_all_failure_rate_range
  have "engine_accepts trader_accounts (n_simulations P) failure_rate_range"
    by (simp add: engine_accepts_def list_all_iff)
  then obtain breakeven_results g3 where
    r2: "run_vectorized_simulation R g2 trader_accounts (n_simulations P) failure_rate_range
       (payout_per_successful_account P) = (Inr breakeven_results, g3)"
    and "map fst breakeven_results = insertion_order [] failure_rate_range"
    by (rule run_accepts)
  then have k2: "map fst breakeven_results = failure_rate_range"
    by (simp add: insertion_order_append sorted_failure_rate_range)
  from risk_analysis_succeeds [OF assms(1) n list_all_scenario_failure_rates,
      of g3 "num_traders P" "payout_per_successful_account P"]
  obtain risk g4 where
    r3: "(if distribution_mode P = Simulate_Average
          then run_risk_analysis R g3 (num_traders P) (n_simulations P)
                 scenario_failure_rates (payout_per_successful_account P)
          else run_randomized_risk_analysis R g3 (num_traders P) (n_simulations P)
                 scenario_failure_rates (payout_per_successful_account P)) = (Inr risk, g4)"
    by (cases "distribution_mode P = Simulate_Average") auto
  from tab1_loop_total [of scenario_failure_rates results "total_revenue_of trader_accounts P"] k1
  obtain metrics where
    t: "tab1_loop (total_revenue_of trader_accounts P) results scenario_failure_rates = Inr metrics"
    by auto
  have "main_app R g P =
       (Inr \<lparr>trader_accounts_of = trader_accounts,
             total_revenue = total_revenue_of trader_accounts P,
             simulation_results = results,
             breakeven_results_of = breakeven_results,
             df_all_scenarios = all_scenarios_data (total_revenue_of trader_accounts P) results,
             df_profit = df_profit_of (total_revenue_of trader_accounts P) breakeven_results,
             df_risk_analysis = risk,
             tab1 = metrics,
             tab2 = find_lowest_profitable
                      (df_profit_of (total_revenue_of trader_accounts P) breakeven_results)\<rparr>,
        g4)"
    by (simp add: main_app_def Let_def gen r1 r2 r3 t)
  with gen pos r1 k1 r2 k2 t that show ?thesis by blast
qed

subsection \<open>The breakeven search\<close>

lemma failure_rate_range_values:
  "failure_rate_range = map (\<lambda>k. real k / 100) [1..<100]"
proof -
  have "[1..<100] = map Suc [0..<99]"
    by (simp add: map_Suc_upt)
  then show ?thesis
    by (simp add: failure_rate_range_def comp_def field_simps del: upt_Suc)
qed

lemma map_failure_rate_profit_data:
  "map failure_rate (profit_data revenue breakeven_results) = map fst breakeven_results"
  by (simp add: profit_data_def case_prod_beta)

lemma df_profit_sorted:
  assumes "map fst breakeven_results = failure_rate_range"
  shows "df_profit_of revenue breakeven_results = profit_data revenue breakeven_results"
proof -
  have "sorted (map failure_rate (profit_data revenue breakeven_results))"
    using assms sorted_failure_rate_range by (simp add: map_failure_rate_profit_data)
  then show ?thesis
    by (simp add: df_profit_of_def sort_key_id_if_sorted)
qed

lemma profit_data_rows:
  assumes "row \<in> set (profit_data revenue breakeven_results)"
    and "distinct (map fst breakeven_results)"
  shows "\<exists>payouts. map_of breakeven_results (failure_rate row) = Some payouts
     \<and> estimated_profit row = float_op (-) (Some (real_of_int revenue)) (np_mean payouts)"
  using assms by (auto simp: profit_data_def)

lemma find_lowest_profitable_spec:
  "(find_lowest_profitable df = No_profitable_rate
      \<longrightarrow> (\<forall>row\<in>set df. \<not> positive (estimated_profit row)))
   \<and> (\<forall>r p. find_lowest_profitable df = Lowest_profitable r p
      \<longrightarrow> (\<exists>row\<in>set df. failure_rate row = r \<and> estimated_profit row = p \<and> positive p)
          \<and> (\<forall>row\<in>set df. positive (estimated_profit row) \<longrightarrow> r \<le> failure_rate row))"
proof (cases "filter (\<lambda>row. positive (estimated_profit row)) df")
  case Nil
  then have "find_lowest_profitable df = No_profitable_rate"
    by (simp add: find_lowest_profitable_def)
  moreover from Nil have "\<forall>row\<in>set df. \<not> positive (estimated_profit row)"
    by (simp add: filter_empty_conv)
  ultimately show ?thesis by simp
next
  case (Cons row rows)
  let ?ps = "filter (\<lambda>row. positive (estimated_profit row)) df"
  let ?low = "fold min (map failure_rate rows) (failure_rate row)"
  let ?matching = "filter (\<lambda>r. failure_rate r = ?low) ?ps"
  have "Min (set (failure_rate row # map failure_rate rows)) = ?low"
    by (rule Min.set_eq_fold)
  then have low: "?low = Min (set (map failure_rate ?ps))"
    by (simp add: Cons)
  have fin: "finite (set (map failure_rate ?ps))" and ne: "set (map failure_rate ?ps) \<noteq> {}"
    by (simp_all add: Cons)
  from Min_in [OF fin ne] low have "?low \<in> failure_rate ` set ?ps" by simp
  then have "?matching \<noteq> []"
    by (auto simp: filter_empty_conv)
  then have "hd ?matching \<in> set ?matching" by (rule hd_in_set)
  then have h: "hd ?matching \<in> set df" "positive (estimated_profit (hd ?matching))"
    "failure_rate (hd ?matching) = ?low"
    by auto
  have least: "?low \<le> failure_rate r" if "r \<in> set df" "positive (estimated_profit r)" for r
  proof -
    from that have "failure_rate r \<in> set (map failure_rate ?ps)" by simp
    from Min_le [OF fin this] low show ?thesis by simp
  qed
  have "find_lowest_profitable df = Lowest_profitable ?low (estimated_profit (hd ?matching))"
    by (simp add: find_lowest_profitable_def Cons Let_def)
  with h least show ?thesis by auto
qed

text \<open>Two small tables: one with a profitable rate, one without (\<open>nan\<close> and 0 are
  not above 0).\<close>

lemma breakeven_found_example:
  "find_lowest_profitable
     [\<lparr>failure_rate = 1 / 100, estimated_profit = Some (- 5)\<rparr>,
      \<lparr>failure_rate = 2 / 100, estimated_profit = Some 3\<rparr>,
      \<lparr>failure_rate = 3 / 100, estimated_profit = Some 7\<rparr>]
   = Lowest_profitable (2 / 100) (Some 3)"
  by (simp add: find_lowest_profitable_def positive_def)

lemma breakeven_not_found_example:
  "find_lowest_profitable
     [\<lparr>failure_rate = 1 / 100, estimated_profit = Some (- 5)\<rparr>,
      \<lparr>failure_rate = 2 / 100, estimated_profit = None\<rparr>,
      \<lparr>failure_rate = 3 / 100, estimated_profit = Some 0\<rparr>]
   = No_profitable_rate"
  by (simp add: find_lowest_profitable_def positive_def)

text \<open>
  C5. The breakeven table has one row for each of the rates 0.01, 0.02, ..., 0.99, in
  this order, with the estimated profit \<open>total_revenue - mean\<close> of that rate's batch.
  The search reports either the warning (\<open>No_profitable_rate\<close>, not an error), and
  then no row has a profit above 0, or a rate \<open>r\<close> with its profit \<open>p\<close>: then \<open>r\<close> is
  the rate of a row whose profit \<open>p\<close> is above 0, and no row with a profit above 0 has
  a smaller rate.
\<close>

theorem breakeven_search:
  assumes "generators_ok R" and "params_ok P"
  shows "\<exists>rep g'. main_app R g P = (Inr rep, g')
     \<and> map fst (breakeven_results_of rep) = map (\<lambda>k. real k / 100) [1..<100]
     \<and> map failure_rate (df_profit rep) = map (\<lambda>k. real k / 100) [1..<100]
     \<and> (\<forall>row\<in>set (df_profit rep). \<exists>payouts.
           map_of (breakeven_results_of rep) (failure_rate row) = Some payouts
           \<and> estimated_profit row
               = float_op (-) (Some (real_of_int (total_revenue rep))) (np_mean payouts))
     \<and> (tab2 rep = No_profitable_rate
           \<longrightarrow> (\<forall>row\<in>set (df_profit rep). \<not> positive (estimated_profit row)))
     \<and> (\<forall>r p. tab2 rep = Lowest_profitable r p
           \<longrightarrow> (\<exists>row\<in>set (df_profit rep).
                   failure_rate row = r \<and> estimated_profit row = p \<and> positive p)
               \<and> (\<forall>row\<in>set (df_profit rep).
                     positive (estimated_profit row) \<longrightarrow> r \<le> failure_rate row))"
proof -
  from assms obtain trader_accounts g1 results g2 breakeven_results g3 risk g4 metrics where
    keys: "map fst breakeven_results = failure_rate_range"
    and main: "main_app R g P =
       (Inr \<lparr>trader_accounts_of = trader_accounts,
             total_revenue = total_revenue_of trader_accounts P,
             simulation_results = results,
             breakeven_results_of = breakeven_results,
             df_all_scenarios = all_scenarios_data (total_revenue_of trader_accounts P) results,
             df_profit = df_profit_of (total_revenue_of trader_accounts P) breakeven_results,
             df_risk_analysis = risk,
             tab1 = metrics,
             tab2 = find_lowest_profitable
                      (df_profit_of (total_revenue_of trader_accounts P) breakeven_results)\<rparr>,
        g4)"
    by (rule main_app_runs [of R P g])
  let ?rev = "total_revenue_of trader_accounts P"
  have df: "df_profit_of ?rev breakeven_results = profit_data ?rev breakeven_results"
    by (rule df_profit_sorted [OF keys])
  have d: "distinct (map fst breakeven_results)"
    using keys sorted_failure_rate_range by simp
  have rows: "\<forall>row\<in>set (df_profit_of ?rev breakeven_results). \<exists>payouts.
           map_of breakeven_results (failure_rate row) = Some payouts
           \<and> estimated_profit row = float_op (-) (Some (real_of_int ?rev)) (np_mean payouts)"
    unfolding df using profit_data_rows [OF _ d] by blast
  have col: "map failure_rate (df_profit_of ?rev breakeven_results) = map (\<lambda>k. real k / 100) [1..<100]"
    unfolding df by (simp only: map_failure_rate_profit_data keys failure_rate_range_values)
  have k: "map fst breakeven_results = map (\<lambda>k. real k / 100) [1..<100]"
    by (simp only: keys failure_rate_range_values)
  from main k col rows find_lowest_profitable_spec [of "df_profit_of ?rev breakeven_results"]
  show ?thesis by simp
qed

theorem breakeven_search_witness:
  "\<exists>rep g'.
     main_app lcg 0
       \<lparr>distribution_mode = Randomized, num_traders = 100, avg_accounts_per_trader = 20,
        randomized_account_range = (5, 15), n_simulations = 1000, cost_per_account = 200,
        payout_per_successful_account = 1000, additional_revenue = 200000\<rparr> = (Inr rep, g')
     \<and> length (df_profit rep) = 99"
proof -
  have "params_ok
       \<lparr>distribution_mode = Randomized, num_traders = 100, avg_accounts_per_trader = 20,
        randomized_account_range = (5, 15), n_simulations = 1000, cost_per_account = 200,
        payout_per_successful_account = 1000, additional_revenue = 200000\<rparr>"
    by (simp add: params_ok_def)
  from breakeven_search [OF lcg_generators_ok this, of 0] obtain rep g' where
    "main_app lcg 0
       \<lparr>distribution_mode = Randomized, num_traders = 100, avg_accounts_per_trader = 20,
        randomized_account_range = (5, 15), n_simulations = 1000, cost_per_account = 200,
        payout_per_successful_account = 1000, additional_revenue = 200000\<rparr> = (Inr rep, g')"
    "map failure_rate (df_profit rep) = map (\<lambda>k. real k / 100) [1..<100]"
    by blast
  moreover from this(2) have
    "length (map failure_rate (df_profit rep)) = length (map (\<lambda>k. real k / 100) [1..<100])"
    by (rule arg_cong)
  then have "length (df_profit rep) = 99" by simp
  ultimately show ?thesis by blast
qed

subsection \<open>Revenue, profit and the confidence band\<close>


lemma batch_length:
  assumes "binomial_ok R"
    and "engine_accepts trader_accounts n_sim failure_rates"
    and "run_vectorized_simulation R g trader_accounts n_sim failure_rates payout = (Inr res, g')"
    and "(r, batch) \<in> set res"
  shows "length batch = nat n_sim"
proof -
  from assms(3) have
    "simulation_loop R trader_accounts n_sim payout failure_rates [] g = (Inr res, g')"
    by (simp add: run_vectorized_simulation_def)
  from simulation_loop_batches [OF this assms(4)] obtain g1 where
    r: "r \<in> set failure_rates"
    and b: "batch = payouts_of (fst (rbinomial R g1 trader_accounts (1 - r) (nat n_sim))) payout"
    by auto
  from r assms(2) have "0 \<le> 1 - r" "1 - r \<le> 1" "\<forall>a\<in>set trader_accounts. 0 \<le> a"
    by (auto simp: engine_accepts_def list_all_iff)
  with assms(1) have "binomial_matrix trader_accounts (1 - r) (nat n_sim)
      (fst (rbinomial R g1 trader_accounts (1 - r) (nat n_sim)))"
    by (simp add: binomial_ok_def)
  with b show ?thesis
    by (simp add: payouts_of_def binomial_matrix_def)
qed

lemma np_std_nonneg:
  "payouts \<noteq> [] \<Longrightarrow> \<exists>m s. np_mean payouts = Some m \<and> np_std payouts = Some s \<and> 0 \<le> s"
proof -
  assume "payouts \<noteq> []"
  then obtain m where m: "np_mean payouts = Some m"
    by (simp add: np_mean_def)
  have "0 \<le> sum_list (map (\<lambda>x. (real_of_int x - m)\<^sup>2) payouts)"
    by (rule sum_list_nonneg) auto
  then have "0 \<le> sqrt (sum_list (map (\<lambda>x. (real_of_int x - m)\<^sup>2) payouts) / real (length payouts))"
    by simp
  with m show ?thesis
    by (simp add: np_std_def)
qed

lemma tab1_loop_metrics:
  "tab1_loop revenue results rates = Inr ms \<Longrightarrow>
   map scenario_rate ms = rates
   \<and> (\<forall>m\<in>set ms. scenario_metrics_of revenue results (scenario_rate m) = Inr m)"
proof (induction rates arbitrary: ms)
  case Nil
  then show ?case by auto
next
  case (Cons r rates)
  from Cons.prems obtain m ms' where
    m: "scenario_metrics_of revenue results r = Inr m"
    and rest: "tab1_loop revenue results rates = Inr ms'"
    and ms: "ms = m # ms'"
    by (auto split: sum.splits)
  from scenario_metrics_of_Inr [OF m] have "scenario_rate m = r" by blast
  with Cons.IH [OF rest] m ms show ?case by simp
qed



text \<open>
  C8. For every scenario rate the reported range is
  \<open>[total_revenue - (mean + std), total_revenue - (mean - std)]\<close>, with \<open>mean\<close> and
  \<open>std\<close> the mean and the (non-negative) standard deviation of that rate's batch. The
  metrics are the value of \<open>tab1_loop\<close> on the revenue and the batches: a function that
  takes no generator.
\<close>

theorem confidence_band:
  assumes "generators_ok R" and "binomial_ok R" and "params_ok P" and "1 \<le> n_simulations P"
  shows "\<exists>rep g'. main_app R g P = (Inr rep, g')
     \<and> map scenario_rate (tab1 rep) = scenario_failure_rates
     \<and> tab1_loop (total_revenue rep) (simulation_results rep) scenario_failure_rates
         = Inr (tab1 rep)
     \<and> (\<forall>m\<in>set (tab1 rep). \<exists>payouts mean std.
           map_of (simulation_results rep) (scenario_rate m) = Some payouts
           \<and> np_mean payouts = Some mean \<and> np_std payouts = Some std \<and> 0 \<le> std
           \<and> mean_payout m = Some mean \<and> std_payout m = Some std
           \<and> profit_minus_1_std m = Some (real_of_int (total_revenue rep) - (mean + std))
           \<and> profit_plus_1_std m = Some (real_of_int (total_revenue rep) - (mean - std)))"
proof -
  from assms(1,3) obtain trader_accounts g1 results g2 breakeven_results g3 risk g4 metrics where
    pos: "\<forall>a\<in>set trader_accounts. 0 \<le> a"
    and r1: "run_vectorized_simulation R g1 trader_accounts (n_simulations P) scenario_failure_rates
       (payout_per_successful_account P) = (Inr results, g2)"
    and t: "tab1_loop (total_revenue_of trader_accounts P) results scenario_failure_rates = Inr metrics"
    and main: "main_app R g P =
       (Inr \<lparr>trader_accounts_of = trader_accounts,
             total_revenue = total_revenue_of trader_accounts P,
             simulation_results = results,
             breakeven_results_of = breakeven_results,
             df_all_scenarios = all_scenarios_data (total_revenue_of trader_accounts P) results,
             df_profit = df_profit_of (total_revenue_of trader_accounts P) breakeven_results,
             df_risk_analysis = risk,
             tab1 = metrics,
             tab2 = find_lowest_profitable
                      (df_profit_of (total_revenue_of trader_accounts P) breakeven_results)\<rparr>,
        g4)"
    by (rule main_app_runs [of R P g])
  let ?rev = "total_revenue_of trader_accounts P"
  from pos assms(4) list_all_scenario_failure_rates
  have acc: "engine_accepts trader_accounts (n_simulations P) scenario_failure_rates"
    by (simp add: engine_accepts_def list_all_iff)
  have band: "\<exists>payouts mean std.
           map_of results (scenario_rate m) = Some payouts
           \<and> np_mean payouts = Some mean \<and> np_std payouts = Some std \<and> 0 \<le> std
           \<and> mean_payout m = Some mean \<and> std_payout m = Some std
           \<and> profit_minus_1_std m = Some (real_of_int ?rev - (mean + std))
           \<and> profit_plus_1_std m = Some (real_of_int ?rev - (mean - std))"
    if "m \<in> set metrics" for m
  proof -
    from that tab1_loop_metrics [OF t]
    have "scenario_metrics_of ?rev results (scenario_rate m) = Inr m" by blast
    from scenario_metrics_of_Inr [OF this] obtain payouts where
      look: "map_of results (scenario_rate m) = Some payouts"
      and flds: "mean_payout m = np_mean payouts" "std_payout m = np_std payouts"
        "profit_minus_1_std m
           = float_op (-) (Some (real_of_int ?rev)) (float_op (+) (np_mean payouts) (np_std payouts))"
        "profit_plus_1_std m
           = float_op (-) (Some (real_of_int ?rev)) (float_op (-) (np_mean payouts) (np_std payouts))"
      by blast
    from look have "(scenario_rate m, payouts) \<in> set results" by (rule map_of_SomeD)
    from batch_length [OF assms(2) acc r1 this] assms(4) have "payouts \<noteq> []" by auto
    from np_std_nonneg [OF this] obtain mean std where
      "np_mean payouts = Some mean" "np_std payouts = Some std" "0 \<le> std"
      by blast
    with look flds show ?thesis
      by (simp add: float_op_def)
  qed
  from tab1_loop_metrics [OF t] have "map scenario_rate metrics = scenario_failure_rates"
    by blast
  with main t band show ?thesis by simp
qed

theorem confidence_band_witness:
  "\<exists>rep g'.
     main_app lcg 0
       \<lparr>distribution_mode = Simulate_Average, num_traders = 100, avg_accounts_per_trader = 10,
        randomized_account_range = (5, 15), n_simulations = 100, cost_per_account = 200,
        payout_per_successful_account = 1000, additional_revenue = 200000\<rparr> = (Inr rep, g')
     \<and> map scenario_rate (tab1 rep) = [90 / 100, 85 / 100, 80 / 100, 75 / 100, 50 / 100]"
proof -
  have "params_ok
       \<lparr>distribution_mode = Simulate_Average, num_traders = 100, avg_accounts_per_trader = 10,
        randomized_account_range = (5, 15), n_simulations = 100, cost_per_account = 200,
        payout_per_successful_account = 1000, additional_revenue = 200000\<rparr>"
    and "1 \<le> n_simulations
       \<lparr>distribution_mode = Simulate_Average, num_traders = 100, avg_accounts_per_trader = 10,
        randomized_account_range = (5, 15), n_simulations = 100, cost_per_account = 200,
        payout_per_successful_account = 1000, additional_revenue = 200000\<rparr>"
    by (simp_all add: params_ok_def)
  from confidence_band [OF lcg_generators_ok lcg_binomial_ok this, of 0] obtain rep g' where
    "main_app lcg 0
       \<lparr>distribution_mode = Simulate_Average, num_traders = 100, avg_accounts_per_trader = 10,
        randomized_account_range = (5, 15), n_simulations = 100, cost_per_account = 200,
        payout_per_successful_account = 1000, additional_revenue = 200000\<rparr> = (Inr rep, g')"
    "map scenario_rate (tab1 rep) = scenario_failure_rates"
    by blast
  then show ?thesis
    by (intro exI [of _ rep] exI [of _ g']) (simp add: scenario_failure_rates_def)
qed

text \<open>A batch with mean 200 and standard deviation 100, for a revenue of 1000.\<close>

lemma confidence_band_example:
  "scenario_metrics_of 1000 [(1 / 2, [100, 300])] (1 / 2)
     = Inr \<lparr>scenario_rate = 1 / 2, mean_payout = Some 200, std_payout = Some 100,
            estimated_net_profit = Some 800, profit_minus_1_std = Some 700,
            profit_plus_1_std = Some 900\<rparr>"
proof -
  have "sqrt 10000 = (100::real)"
    using real_sqrt_abs [of 100] by simp
  then show ?thesis
    by (simp add: scenario_metrics_of_def np_mean_def np_std_def float_op_def power2_eq_square)
qed

subsection \<open>One population for the run, a fresh one for each sweep point\<close>




subsection \<open>Logging changes nothing\<close>

text \<open>
  Run on \<open>logged R\<close>, every function of the program returns what it returns on \<open>R\<close>
  and leaves the generator of \<open>R\<close> in the same state: the log is an observation of
  the run, not a part of it.
\<close>

lemma same_runI: "x = (a, (g, tr)) \<Longrightarrow> y = (a, g) \<Longrightarrow> same_run x y"
  by (simp add: same_run_def)

lemma same_runE:
  assumes "same_run x y"
  obtains a g tr where "x = (a, (g, tr))" and "y = (a, g)"
  using assms by (cases x; cases y) (auto simp: same_run_def)

lemma np_binomial_same:
  "same_run (np_binomial (logged R) (g, tr) ns p n) (np_binomial R g ns p n)"
  by (simp add: same_run_def np_binomial_cases logged_binomial)

lemma np_poisson_same:
  "same_run (np_poisson (logged R) (g, tr) lam k) (np_poisson R g lam k)"
  by (simp add: same_run_def np_poisson_def logged_poisson case_prod_beta)

lemma np_randint_same:
  "same_run (np_randint (logged R) (g, tr) low high k) (np_randint R g low high k)"
  by (simp add: same_run_def np_randint_def logged_randint case_prod_beta)

lemma simulation_loop_same:
  "same_run (simulation_loop (logged R) pop n payout rates results (g, tr))
     (simulation_loop R pop n payout rates results g)"
proof (induction rates arbitrary: results g tr)
  case Nil
  then show ?case by (simp add: same_run_def)
next
  case (Cons rate rates)
  show ?case
    using Cons.IH
    by (simp add: simulation_loop_step logged_binomial same_run_def del: simulation_loop.simps)
qed

lemma run_same:
  "same_run (run_vectorized_simulation (logged R) (g, tr) pop n rates payout)
     (run_vectorized_simulation R g pop n rates payout)"
  by (simp add: run_vectorized_simulation_def simulation_loop_same)

lemma sweep_loop_same:
  assumes "\<And>g tr v. same_run (gen' (g, tr) v) (gen g v)"
  shows "same_run (sweep_loop gen' (logged R) n rates payout axis rows (g, tr))
     (sweep_loop gen R n rates payout axis rows g)"
proof (induction axis arbitrary: rows g tr)
  case Nil
  then show ?case by (simp add: same_run_def)
next
  case (Cons v rest)
  from assms [of g tr v] obtain a g1 tr1 where
    gen: "gen' (g, tr) v = (a, (g1, tr1))" "gen g v = (a, g1)"
    by (rule same_runE)
  show ?case
  proof (cases a)
    case (Inl e)
    with gen show ?thesis by (simp add: same_run_def)
  next
    case (Inr population)
    from run_same [of R g1 tr1 population n rates payout] obtain b g2 tr2 where
      run: "run_vectorized_simulation (logged R) (g1, tr1) population n rates payout = (b, (g2, tr2))"
        "run_vectorized_simulation R g1 population n rates payout = (b, g2)"
      by (rule same_runE)
    show ?thesis
    proof (cases b)
      case (Inl e)
      with gen run Inr show ?thesis by (simp add: same_run_def)
    next
      case sim: (Inr sim_res)
      with gen run Inr Cons.IH [of "rows @ risk_rows v sim_res" g2 tr2] show ?thesis by simp
    qed
  qed
qed

lemma run_risk_analysis_same:
  "same_run (run_risk_analysis (logged R) (g, tr) num n rates payout)
     (run_risk_analysis R g num n rates payout)"
  unfolding run_risk_analysis_def risk_loop_sweep
  by (rule sweep_loop_same) (rule np_poisson_same)

lemma run_randomized_risk_analysis_same:
  "same_run (run_randomized_risk_analysis (logged R) (g, tr) num n rates payout)
     (run_randomized_risk_analysis R g num n rates payout)"
  unfolding run_randomized_risk_analysis_def randomized_risk_loop_sweep
  by (rule sweep_loop_same) (rule np_randint_same)

lemma main_app_same:
  "same_run (main_app (logged R) (g, tr) P) (main_app R g P)"
proof -
  have "same_run (generate_trader_accounts (logged R) (g, tr) P) (generate_trader_accounts R g P)"
    by (simp add: generate_trader_accounts_def np_poisson_same np_randint_same)
  then obtain a g1 tr1 where
    gen: "generate_trader_accounts (logged R) (g, tr) P = (a, (g1, tr1))"
      "generate_trader_accounts R g P = (a, g1)"
    by (rule same_runE)
  show ?thesis
  proof (cases a)
    case (Inl e)
    with gen show ?thesis by (simp add: main_app_def same_run_def)
  next
    case pop: (Inr trader_accounts)
    from run_same [of R g1 tr1 trader_accounts "n_simulations P" scenario_failure_rates
        "payout_per_successful_account P"]
    obtain b g2 tr2 where
      r1: "run_vectorized_simulation (logged R) (g1, tr1) trader_accounts (n_simulations P)
             scenario_failure_rates (payout_per_successful_account P) = (b, (g2, tr2))"
        "run_vectorized_simulation R g1 trader_accounts (n_simulations P)
             scenario_failure_rates (payout_per_successful_account P) = (b, g2)"
      by (rule same_runE)
    show ?thesis
    proof (cases b)
      case (Inl e)
      with gen pop r1 show ?thesis by (simp add: main_app_def same_run_def)
    next
      case res: (Inr results)
      from run_same [of R g2 tr2 trader_accounts "n_simulations P" failure_rate_range
          "payout_per_successful_account P"]
      obtain c g3 tr3 where
        r2: "run_vectorized_simulation (logged R) (g2, tr2) trader_accounts (n_simulations P)
               failure_rate_range (payout_per_successful_account P) = (c, (g3, tr3))"
          "run_vectorized_simulation R g2 trader_accounts (n_simulations P)
               failure_rate_range (payout_per_successful_account P) = (c, g3)"
        by (rule same_runE)
      show ?thesis
      proof (cases c)
        case (Inl e)
        with gen pop r1 res r2 show ?thesis by (simp add: main_app_def same_run_def)
      next
        case bres: (Inr breakeven_results)
        have "same_run
            (if distribution_mode P = Simulate_Average
             then run_risk_analysis (logged R) (g3, tr3) (num_traders P) (n_simulations P)
                    scenario_failure_rates (payout_per_successful_account P)
             else run_randomized_risk_analysis (logged R) (g3, tr3) (num_traders P) (n_simulations P)
                    scenario_failure_rates (payout_per_successful_account P))
            (if distribution_mode P = Simulate_Average
             then run_risk_analysis R g3 (num_traders P) (n_simulations P)
                    scenario_failure_rates (payout_per_successful_account P)
             else run_randomized_risk_analysis R g3 (num_traders P) (n_simulations P)
                    scenario_failure_rates (payout_per_successful_account P))"
          by (simp add: run_risk_analysis_same run_randomized_risk_analysis_same)
        then obtain d g4 tr4 where
          r3: "(if distribution_mode P = Simulate_Average
             then run_risk_analysis (logged R) (g3, tr3) (num_traders P) (n_simulations P)
                    scenario_failure_rates (payout_per_successful_account P)
             else run_randomized_risk_analysis (logged R) (g3, tr3) (num_traders P) (n_simulations P)
                    scenario_failure_rates (payout_per_successful_account P)) = (d, (g4, tr4))"
            "(if distribution_mode P = Simulate_Average
             then run_risk_analysis R g3 (num_traders P) (n_simulations P)
                    scenario_failure_rates (payout_per_successful_account P)
             else run_randomized_risk_analysis R g3 (num_traders P) (n_simulations P)
                    scenario_failure_rates (payout_per_successful_account P)) = (d, g4)"
          by (rule same_runE)
        show ?thesis
          by (cases d; cases "tab1_loop (total_revenue_of trader_accounts P) results scenario_failure_rates")
            (simp_all add: main_app_def Let_def same_run_def gen pop r1 res r2 bres r3)
      qed
    qed
  qed
qed

end
